theory Spec2Isabelle
  imports Complex_Main "HOL-Library.Sublist"
begin

section \<open>Python values used by \<open>app.py\<close>\<close>

text \<open>
  Exceptions are values: the class and the text that \<open>str(e)\<close> gives.
  \<open>BaseExceptionOnly\<close> stands for the classes that derive from \<open>BaseException\<close> but
  not from \<open>Exception\<close> (\<open>SystemExit\<close>, \<open>KeyboardInterrupt\<close>, \<open>GeneratorExit\<close>): an
  \<open>except Exception\<close> clause does not catch them.
\<close>

datatype exc_class =
    RuntimeError | TypeError | KeyError | UnicodeDecodeError
  | OtherException | BaseExceptionOnly

datatype py_exc = PyExc exc_class string

fun is_Exception :: "py_exc \<Rightarrow> bool" where
  "is_Exception (PyExc c t) = (c \<noteq> BaseExceptionOnly)"

fun exc_text :: "py_exc \<Rightarrow> string" where
  "exc_text (PyExc c t) = t"

text \<open>
  The value \<open>json.load\<close> returns. A \<open>dict\<close> is the list of its items, read with
  \<open>map_of\<close>. Floats are carried as the rational number they denote.
\<close>

datatype json =
    JNull
  | JBool bool
  | JInt int
  | JFloat rat
  | JStr string
  | JArr "json list"
  | JObj "(string \<times> json) list"

text \<open>The horizontal ellipsis U+2026 of the progress messages, as its UTF-8 bytes.\<close>

definition ellipsis :: string where
  "ellipsis = [CHR 0xE2, CHR 0x80, CHR 0xA6]"

section \<open>The progress snapshot and the state of \<open>DfuApi\<close>\<close>

text \<open>
  Percentages are Python floats. They are modelled as exact rationals: the rounding
  error of IEEE division and multiplication is not modelled.
\<close>

record snapshot =
  current :: int
  total :: int
  message :: string
  percentage :: rat

text \<open>
  The fields of \<open>DfuApi\<close>. The lock \<open>_progress_lock\<close> is not a field of the model:
  every access to \<open>_progress\<close> and \<open>_running\<close> in the source is inside a
  \<open>with self._progress_lock\<close> block, and each such block is one atomic step of the model.
\<close>

record api_state =
  progress :: snapshot
  running :: bool

text \<open>\<open>DfuApi.__init__\<close>\<close>

definition init_api :: api_state where
  "init_api = \<lparr>progress = \<lparr>current = 0, total = 0, message = '''', percentage = 0\<rparr>,
               running = False\<rparr>"

text \<open>\<open>DfuApi.get_progress\<close>: a copy of the snapshot.\<close>

definition get_progress :: "api_state \<Rightarrow> snapshot" where
  "get_progress s = progress s"

text \<open>
  Python's \<open>round(x, 1)\<close>: the closest multiple of one tenth, a tie going to the even
  choice.
\<close>

definition py_round1 :: "rat \<Rightarrow> rat" where
  "py_round1 x =
     (let y = x * 10;
          f = \<lfloor>y\<rfloor>;
          d = y - of_int f
      in of_int (if d < 1 / 2 then f
                 else if 1 / 2 < d then f + 1
                 else if even f then f else f + 1) / 10)"

text \<open>
  \<open>DfuApi._set_progress\<close> (the leading underscore is dropped). An omitted
  \<open>percentage\<close> is \<open>None\<close>.
\<close>

definition set_progress ::
  "int \<Rightarrow> int \<Rightarrow> string \<Rightarrow> rat option \<Rightarrow> api_state \<Rightarrow> api_state" where
  "set_progress cur tot msg pct s =
     (let p = (if pct = None \<and> tot > 0 then of_int cur / of_int tot * 100
               else if pct = None then 0
               else the pct)
      in s\<lparr>progress := \<lparr>current = cur, total = tot, message = msg,
                         percentage = py_round1 p\<rparr>\<rparr>)"

section \<open>The configuration loader\<close>

text \<open>
  What the file system and \<open>json.load\<close> give for \<open>config.json\<close>:
  the file is absent (\<open>CONFIG_PATH.exists()\<close> is false); \<open>open\<close> or the read raises
  \<open>OSError\<close>; the bytes are not UTF-8 (\<open>UnicodeDecodeError\<close>, a \<open>ValueError\<close>);
  the text is not JSON (\<open>json.JSONDecodeError\<close>); or the document parses.
\<close>

datatype config_file =
    Absent
  | OSErrorFile
  | NotUtf8
  | JSONDecodeErrorFile
  | Parsed json

type_synonym config = "string \<rightharpoonup> json"

definition DEFAULT_ADVANCED_items :: "(string \<times> json) list" where
  "DEFAULT_ADVANCED_items =
     [(''app_id'', JInt 1),
      (''start_address'', JInt 0),
      (''block_size'', JInt 512),
      (''ring_type'', JInt 8),
      (''force_flags'', JInt 0),
      (''reboot_wait'', JInt 10)]"

definition DEFAULT_ADVANCED :: config where
  "DEFAULT_ADVANCED = map_of DEFAULT_ADVANCED_items"

text \<open>\<open>needle in haystack\<close> on two \<open>str\<close>: the substring test.\<close>

fun py_str_contains :: "string \<Rightarrow> string \<Rightarrow> bool" where
  "py_str_contains [] needle = (needle = [])"
| "py_str_contains (c # cs) needle =
     (prefix needle (c # cs) \<or> py_str_contains cs needle)"

text \<open>The texts of the interpreter's \<open>TypeError\<close>s (CPython 3.12).\<close>

definition apostrophe :: string where
  "apostrophe = [CHR 0x27]"

definition not_iterable :: "string \<Rightarrow> py_exc" where
  "not_iterable ty =
     PyExc TypeError
       (''argument of type '' @ apostrophe @ ty @ apostrophe @ '' is not iterable'')"

definition not_subscriptable :: "string \<Rightarrow> py_exc" where
  "not_subscriptable ty =
     PyExc TypeError
       (apostrophe @ ty @ apostrophe @ '' object is not subscriptable'')"

text \<open>
  \<open>key in data\<close> for a \<open>str\<close> key: membership of the keys of a dict, of the
  elements of a list, the substring test on a string, and \<open>TypeError\<close> on
  \<open>None\<close>, a bool or a number.
\<close>

fun py_contains :: "json \<Rightarrow> string \<Rightarrow> py_exc + bool" where
  "py_contains (JObj d) key = Inr (map_of d key \<noteq> None)"
| "py_contains (JArr xs) key = Inr (JStr key \<in> set xs)"
| "py_contains (JStr s) key = Inr (py_str_contains s key)"
| "py_contains JNull key = Inl (not_iterable ''NoneType'')"
| "py_contains (JBool b) key = Inl (not_iterable ''bool'')"
| "py_contains (JInt i) key = Inl (not_iterable ''int'')"
| "py_contains (JFloat x) key = Inl (not_iterable ''float'')"

text \<open>\<open>data[key]\<close> for a \<open>str\<close> key.\<close>

fun py_getitem :: "json \<Rightarrow> string \<Rightarrow> py_exc + json" where
  "py_getitem (JObj d) key =
     (case map_of d key of
        None \<Rightarrow> Inl (PyExc KeyError (apostrophe @ key @ apostrophe))
      | Some v \<Rightarrow> Inr v)"
| "py_getitem (JArr xs) key =
     Inl (PyExc TypeError ''list indices must be integers or slices, not str'')"
| "py_getitem (JStr s) key =
     Inl (PyExc TypeError
           (''string indices must be integers, not '' @ apostrophe @ ''str'' @ apostrophe))"
| "py_getitem JNull key = Inl (not_subscriptable ''NoneType'')"
| "py_getitem (JBool b) key = Inl (not_subscriptable ''bool'')"
| "py_getitem (JInt i) key = Inl (not_subscriptable ''int'')"
| "py_getitem (JFloat x) key = Inl (not_subscriptable ''float'')"

text \<open>
  The loop \<open>for key in DEFAULT_ADVANCED: if key in data: merged[key] = data[key]\<close>.
  The \<open>except\<close> clause of \<open>load_config\<close> names \<open>json.JSONDecodeError\<close> and
  \<open>OSError\<close> only, so an exception of the loop leaves the function.
\<close>

fun merge_keys :: "json \<Rightarrow> string list \<Rightarrow> config \<Rightarrow> py_exc + config" where
  "merge_keys data [] merged = Inr merged"
| "merge_keys data (key # keys) merged =
     (case py_contains data key of
        Inl e \<Rightarrow> Inl e
      | Inr False \<Rightarrow> merge_keys data keys merged
      | Inr True \<Rightarrow>
          (case py_getitem data key of
             Inl e \<Rightarrow> Inl e
           | Inr v \<Rightarrow> merge_keys data keys (merged(key \<mapsto> v))))"

definition load_config :: "config_file \<Rightarrow> py_exc + config" where
  "load_config file =
     (case file of
        Absent \<Rightarrow> Inr DEFAULT_ADVANCED
      | OSErrorFile \<Rightarrow> Inr DEFAULT_ADVANCED
      | JSONDecodeErrorFile \<Rightarrow> Inr DEFAULT_ADVANCED
      | NotUtf8 \<Rightarrow>
          Inl (PyExc UnicodeDecodeError
                (apostrophe @ ''utf-8'' @ apostrophe @ '' codec can'' @ apostrophe
                 @ ''t decode byte''))
      | Parsed data \<Rightarrow>
          merge_keys data (map fst DEFAULT_ADVANCED_items) DEFAULT_ADVANCED)"

section \<open>The external controller\<close>

text \<open>
  \<open>PlatformController\<close> is not part of the repository. It is a parameter of the model:
  what each of its four operations does when \<open>run\<close> calls it. \<open>None\<close> is a normal
  return, \<open>Some e\<close> raises \<open>e\<close>. \<open>perform_dfu\<close> gives the calls it makes to the
  registered progress callback, in order, and then returns a bool or raises.
\<close>

record perform_args =
  pa_firmware_path :: string
  pa_app_id :: json
  pa_version :: string
  pa_start_address :: json
  pa_block_size :: json
  pa_ring_type :: json
  pa_force_flags :: json
  pa_reboot_wait :: json

record controller =
  pc_init :: "string \<Rightarrow> string \<Rightarrow> py_exc option"
  pc_configure :: "string \<Rightarrow> int \<Rightarrow> py_exc option"
  pc_set_progress_callback :: "py_exc option"
  pc_perform_dfu :: "perform_args \<Rightarrow> (int \<times> int \<times> string) list \<times> (py_exc + bool)"

text \<open>The arguments of \<open>start_dfu\<close>; \<open>timeout\<close> is an integer, so \<open>int(timeout)\<close> is it.\<close>

record start_args =
  firmware_path :: string
  version :: string
  target_name :: string
  hw_id :: string
  timeout :: int

section \<open>The job \<open>run\<close>\<close>

text \<open>
  The job is the sequence of its atomic steps: a call of \<open>_set_progress\<close> (one
  lock-held block), a call to the controller, a read of the configuration, and the
  lock-held block of the \<open>finally\<close> clause that clears \<open>_running\<close>.
\<close>

datatype event =
    SetProgress int int string "rat option"
  | Construct string string
  | Configure string int
  | SetCallback
  | LoadConfig
  | Perform perform_args
  | Release

fun apply_event :: "event \<Rightarrow> api_state \<Rightarrow> api_state" where
  "apply_event (SetProgress cur tot msg pct) s = set_progress cur tot msg pct s"
| "apply_event Release s = s\<lparr>running := False\<rparr>"
| "apply_event e s = s"

text \<open>The nested \<open>progress_callback\<close>, as the \<open>_set_progress\<close> call it makes.\<close>

fun progress_callback :: "int \<times> int \<times> string \<Rightarrow> event" where
  "progress_callback (cur, tot, msg) =
     SetProgress cur tot msg
       (Some (if tot > 0 then of_int cur / of_int tot * 100 else 0))"

text \<open>\<open>cfg[key]\<close> on the merged configuration.\<close>

definition cfg_get :: "config \<Rightarrow> string \<Rightarrow> py_exc + json" where
  "cfg_get cfg key =
     (case cfg key of
        None \<Rightarrow> Inl (PyExc KeyError (apostrophe @ key @ apostrophe))
      | Some v \<Rightarrow> Inr v)"

text \<open>The keyword arguments of the \<open>perform_dfu\<close> call, evaluated in the order written.\<close>

definition perform_args_of :: "start_args \<Rightarrow> config \<Rightarrow> py_exc + perform_args" where
  "perform_args_of a cfg =
     (case cfg_get cfg ''app_id'' of Inl e \<Rightarrow> Inl e | Inr v1 \<Rightarrow>
     (case cfg_get cfg ''start_address'' of Inl e \<Rightarrow> Inl e | Inr v2 \<Rightarrow>
     (case cfg_get cfg ''block_size'' of Inl e \<Rightarrow> Inl e | Inr v3 \<Rightarrow>
     (case cfg_get cfg ''ring_type'' of Inl e \<Rightarrow> Inl e | Inr v4 \<Rightarrow>
     (case cfg_get cfg ''force_flags'' of Inl e \<Rightarrow> Inl e | Inr v5 \<Rightarrow>
     (case cfg_get cfg ''reboot_wait'' of Inl e \<Rightarrow> Inl e | Inr v6 \<Rightarrow>
        Inr \<lparr>pa_firmware_path = firmware_path a, pa_app_id = v1,
             pa_version = version a, pa_start_address = v2, pa_block_size = v3,
             pa_ring_type = v4, pa_force_flags = v5, pa_reboot_wait = v6\<rparr>))))))"

text \<open>
  The \<open>try\<close> block of \<open>run\<close>: the steps it makes and how it ends, \<open>Inr success\<close> at
  \<open>return success\<close> or \<open>Inl e\<close> where \<open>e\<close> is raised.
\<close>

definition run_try ::
  "controller \<Rightarrow> config_file \<Rightarrow> start_args \<Rightarrow> event list \<times> (py_exc + bool)" where
  "run_try pc file a =
     (let e1 = [SetProgress 0 0 (''Connecting'' @ ellipsis) None,
                Construct (hw_id a) ''ble''];
          e2 = e1 @ [Configure (target_name a) (timeout a)];
          e3 = e2 @ [SetCallback];
          e4 = e3 @ [SetProgress 0 0 (''Performing DFU'' @ ellipsis) None, LoadConfig]
      in
      (case pc_init pc (hw_id a) ''ble'' of Some x \<Rightarrow> (e1, Inl x) | None \<Rightarrow>
      (case pc_configure pc (target_name a) (timeout a) of Some x \<Rightarrow> (e2, Inl x) | None \<Rightarrow>
      (case pc_set_progress_callback pc of Some x \<Rightarrow> (e3, Inl x) | None \<Rightarrow>
      (case load_config file of Inl x \<Rightarrow> (e4, Inl x) | Inr cfg \<Rightarrow>
      (case perform_args_of a cfg of Inl x \<Rightarrow> (e4, Inl x) | Inr pa \<Rightarrow>
      (let e5 = e4 @ [Perform pa] @ map progress_callback (fst (pc_perform_dfu pc pa))
       in
       (case snd (pc_perform_dfu pc pa) of Inl x \<Rightarrow> (e5, Inl x) | Inr success \<Rightarrow>
         (e5 @ [if success
                then SetProgress 100 100 ''DFU completed successfully.'' (Some 100)
                else SetProgress 0 0 ''DFU failed.'' (Some 0)],
          Inr success)))))))))"

text \<open>
  \<open>run\<close>: the \<open>try\<close> block, the handler \<open>except Exception as e\<close> that stores the
  error snapshot and raises \<open>e\<close> again, and the \<open>finally\<close> clause.
\<close>

definition run ::
  "controller \<Rightarrow> config_file \<Rightarrow> start_args \<Rightarrow> event list \<times> (py_exc + bool)" where
  "run pc file a =
     (let evs = fst (run_try pc file a);
          r = snd (run_try pc file a);
          handler = (case r of
                       Inl e \<Rightarrow> if is_Exception e
                                then [SetProgress 0 0 (''Error: '' @ exc_text e) (Some 0)]
                                else []
                     | Inr success \<Rightarrow> [])
      in (evs @ handler @ [Release], r))"

section \<open>\<open>start_dfu\<close>\<close>

text \<open>
  The block \<open>with self._progress_lock\<close> at the head of \<open>start_dfu\<close>: the check of
  \<open>_running\<close> and the two assignments.
\<close>

definition already_running :: py_exc where
  "already_running = PyExc RuntimeError ''DFU is already running.''"

definition starting :: snapshot where
  "starting = \<lparr>current = 0, total = 0, message = ''Starting'' @ ellipsis, percentage = 0\<rparr>"

definition start_dfu_admit :: "api_state \<Rightarrow> py_exc + api_state" where
  "start_dfu_admit s =
     (if running s then Inl already_running
      else Inr (s\<lparr>running := True, progress := starting\<rparr>))"

text \<open>
  \<open>run_and_capture\<close>: what \<open>result_holder\<close> holds once the thread has ended. An
  exception that is not an \<open>Exception\<close> ends the thread with the list empty.
\<close>

definition run_and_capture :: "py_exc + bool \<Rightarrow> (py_exc + bool) list" where
  "run_and_capture r =
     (case r of
        Inr success \<Rightarrow> [Inr success]
      | Inl e \<Rightarrow> if is_Exception e then [Inl e] else [])"

text \<open>
  The lines after \<open>thread.join()\<close>: the first item of \<open>result_holder\<close> is raised
  if it is an exception (\<open>Inl\<close>) and returned otherwise; with the list empty the
  final \<open>RuntimeError\<close> is raised.
\<close>

definition did_not_return :: py_exc where
  "did_not_return = PyExc RuntimeError ''DFU thread did not return.''"

definition after_join :: "(py_exc + bool) list \<Rightarrow> py_exc + bool" where
  "after_join result_holder =
     (case result_holder of
        r # rest \<Rightarrow> r
      | [] \<Rightarrow> Inl did_not_return)"

definition not_installed :: py_exc where
  "not_installed = PyExc RuntimeError
     ''PlatformController is not installed. Add the package that provides it to requirements.txt (e.g. platform_controller or pyring).''"

text \<open>
  \<open>start_dfu\<close> with no other thread running: what the call returns or raises, and the
  state it leaves. \<open>PlatformController\<close> is \<open>None\<close> when the import failed.
\<close>

definition start_dfu ::
  "controller option \<Rightarrow> config_file \<Rightarrow> start_args \<Rightarrow> api_state
     \<Rightarrow> (py_exc + bool) \<times> api_state" where
  "start_dfu PlatformController file a s =
     (case PlatformController of
        None \<Rightarrow> (Inl not_installed, s)
      | Some pc \<Rightarrow>
          (case start_dfu_admit s of
             Inl e \<Rightarrow> (Inl e, s)
           | Inr s1 \<Rightarrow>
               (after_join (run_and_capture (snd (run pc file a))),
                fold apply_event (fst (run pc file a)) s1)))"

section \<open>Concurrent callers\<close>

text \<open>
  A caller of \<open>start_dfu\<close> that has passed the check of \<open>PlatformController\<close>. The
  thread it starts and joins is counted with it. \<open>Calling\<close>: before the lock-held
  block, with the job it will run if admitted. \<open>InJob\<close>: admitted, with the steps of
  \<open>run\<close> still to make. \<open>Done\<close>: the call has returned or raised.
\<close>

datatype caller =
    Calling "event list" "py_exc + bool"
  | InJob "event list" "py_exc + bool"
  | Done "py_exc + bool"

text \<open>One atomic step of a caller.\<close>

fun caller_step :: "api_state \<Rightarrow> caller \<Rightarrow> api_state \<times> caller" where
  "caller_step s (Calling evs r) =
     (case start_dfu_admit s of
        Inl e \<Rightarrow> (s, Done (Inl e))
      | Inr s1 \<Rightarrow> (s1, InJob evs r))"
| "caller_step s (InJob (e # evs) r) = (apply_event e s, InJob evs r)"
| "caller_step s (InJob [] r) = (s, Done (after_join (run_and_capture r)))"
| "caller_step s (Done r) = (s, Done r)"

text \<open>The scheduler picks the caller that moves; a schedule is the list of its picks.\<close>

fun sys_step :: "api_state \<times> caller list \<Rightarrow> nat \<Rightarrow> api_state \<times> caller list" where
  "sys_step (s, cs) i =
     (if i < length cs
      then (fst (caller_step s (cs ! i)), cs[i := snd (caller_step s (cs ! i))])
      else (s, cs))"

fun exec :: "api_state \<times> caller list \<Rightarrow> nat list \<Rightarrow> api_state \<times> caller list" where
  "exec st [] = st"
| "exec st (i # sched) = exec (sys_step st i) sched"

text \<open>A caller whose job has been admitted and has not yet cleared \<open>_running\<close>.\<close>

fun job_running :: "caller \<Rightarrow> bool" where
  "job_running (InJob evs r) = (Release \<in> set evs)"
| "job_running c = False"

section \<open>The single-flight invariant\<close>

text \<open>A list of steps that clears the running flag once, with its last step.\<close>

definition releases_last :: "event list \<Rightarrow> bool" where
  "releases_last evs = (evs \<noteq> [] \<and> last evs = Release \<and> Release \<notin> set (butlast evs))"

text \<open>The steps a caller has still to make come from such a list.\<close>

fun caller_ok :: "caller \<Rightarrow> bool" where
  "caller_ok (Calling evs r) = releases_last evs"
| "caller_ok (InJob evs r) = (evs = [] \<or> releases_last evs)"
| "caller_ok (Done r) = True"

text \<open>
  The running flag is set exactly when some admitted job has not yet cleared it, and
  at most one caller has such a job.
\<close>

definition single_flight :: "api_state \<times> caller list \<Rightarrow> bool" where
  "single_flight st =
     ((\<forall>c \<in> set (snd st). caller_ok c)
      \<and> (running (fst st) \<longleftrightarrow> (\<exists>i < length (snd st). job_running (snd st ! i)))
      \<and> (\<forall>i < length (snd st). \<forall>j < length (snd st).
            job_running (snd st ! i) \<and> job_running (snd st ! j) \<longrightarrow> i = j))"

section \<open>Auxiliary notions for the properties\<close>

text \<open>
  The arguments with which \<open>run\<close> reaches the call of \<open>perform_dfu\<close>: \<open>None\<close> when
  an earlier step of the \<open>try\<close> block raises.
\<close>

definition perform_call ::
  "controller \<Rightarrow> config_file \<Rightarrow> start_args \<Rightarrow> perform_args option" where
  "perform_call pc file a =
     (if pc_init pc (hw_id a) ''ble'' = None
         \<and> pc_configure pc (target_name a) (timeout a) = None
         \<and> pc_set_progress_callback pc = None
      then (case load_config file of
              Inl e \<Rightarrow> None
            | Inr cfg \<Rightarrow>
                (case perform_args_of a cfg of Inl e \<Rightarrow> None | Inr pa \<Rightarrow> Some pa))
      else None)"

text \<open>The steps of the \<open>try\<close> block before the call of \<open>perform_dfu\<close>, in the order of the source.\<close>

definition steps_before_perform :: "start_args \<Rightarrow> event list" where
  "steps_before_perform a =
     [SetProgress 0 0 (''Connecting'' @ ellipsis) None,
      Construct (hw_id a) ''ble'',
      Configure (target_name a) (timeout a),
      SetCallback,
      SetProgress 0 0 (''Performing DFU'' @ ellipsis) None,
      LoadConfig]"

text \<open>The snapshot the \<open>try\<close> block stores after \<open>perform_dfu\<close> has returned.\<close>

definition terminal_step :: "py_exc + bool \<Rightarrow> event list" where
  "terminal_step r =
     (case r of
        Inl e \<Rightarrow> []
      | Inr success \<Rightarrow>
          [if success
           then SetProgress 100 100 ''DFU completed successfully.'' (Some 100)
           else SetProgress 0 0 ''DFU failed.'' (Some 0)])"


text \<open>A caller about to enter the lock-held block with the job of the given call.\<close>

definition caller_of :: "controller \<Rightarrow> config_file \<Rightarrow> start_args \<Rightarrow> caller" where
  "caller_of pc file a = Calling (fst (run pc file a)) (snd (run pc file a))"

text \<open>
  A concrete call: a controller whose operations all succeed and that reports no
  progress, the form defaults of \<open>get_defaults\<close>, and no \<open>config.json\<close>.
\<close>

definition example_controller :: controller where
  "example_controller =
     \<lparr>pc_init = (\<lambda>h c. None),
      pc_configure = (\<lambda>t n. None),
      pc_set_progress_callback = None,
      pc_perform_dfu = (\<lambda>pa. ([], Inr True))\<rparr>"

definition example_args :: start_args where
  "example_args =
     \<lparr>firmware_path = ''bentley-fw.signed.confirmed.bin'', version = ''0.2.12'',
      target_name = ''oura_'', hw_id = ''BEM_04'', timeout = 10\<rparr>"

definition example_perform_args :: perform_args where
  "example_perform_args =
     \<lparr>pa_firmware_path = ''bentley-fw.signed.confirmed.bin'', pa_app_id = JInt 1,
      pa_version = ''0.2.12'', pa_start_address = JInt 0, pa_block_size = JInt 512,
      pa_ring_type = JInt 8, pa_force_flags = JInt 0, pa_reboot_wait = JInt 10\<rparr>"



section \<open>Properties\<close>

subsection \<open>Rounding and the progress store\<close>

lemma py_round1_0: "py_round1 0 = 0"
  by (simp add: py_round1_def)

lemma py_round1_100: "py_round1 100 = 100"
  by (simp add: py_round1_def)

lemma running_set_progress: "running (set_progress c t m p s) = running s"
  by (simp add: set_progress_def Let_def)

lemma running_apply_event: "e \<noteq> Release \<Longrightarrow> running (apply_event e s) = running s"
  by (cases e) (simp_all add: running_set_progress)

lemma fold_terminal:
  "fold apply_event (evs @ [SetProgress c t m (Some p), Release]) s =
     \<lparr>progress = \<lparr>current = c, total = t, message = m, percentage = py_round1 p\<rparr>,
      running = False\<rparr>"
  by (simp add: set_progress_def Let_def)

subsection \<open>The configuration always has the default keys\<close>

lemma merge_keys_dom_sub:
  "merge_keys data keys merged = Inr m \<Longrightarrow> set keys \<subseteq> dom merged \<Longrightarrow> dom m = dom merged"
proof (induction keys arbitrary: merged)
  case Nil
  then show ?case by simp
next
  case (Cons key keys)
  from Cons.prems(2) have k: "key \<in> dom merged" and ks: "set keys \<subseteq> dom merged"
    by simp_all
  show ?case
  proof (cases "py_contains data key")
    case (Inl e)
    with Cons.prems(1) show ?thesis by simp
  next
    case (Inr b)
    show ?thesis
    proof (cases b)
      case False
      with Inr Cons.prems(1) have "merge_keys data keys merged = Inr m" by simp
      with ks show ?thesis by (rule Cons.IH[rotated])
    next
      case True
      show ?thesis
      proof (cases "py_getitem data key")
        case (Inl e)
        with Inr True Cons.prems(1) show ?thesis by simp
      next
        case (Inr v)
        with \<open>py_contains data key = Inr b\<close> True Cons.prems(1)
        have m: "merge_keys data keys (merged(key \<mapsto> v)) = Inr m" by simp
        from ks have "set keys \<subseteq> dom (merged(key \<mapsto> v))" by auto
        with m have "dom m = dom (merged(key \<mapsto> v))" by (rule Cons.IH)
        with k show ?thesis by auto
      qed
    qed
  qed
qed

lemma dom_DEFAULT_ADVANCED:
  "dom DEFAULT_ADVANCED = set (map fst DEFAULT_ADVANCED_items)"
  by (simp add: DEFAULT_ADVANCED_def dom_map_of_conv_image_fst)

lemma load_config_dom:
  assumes "load_config file = Inr cfg"
  shows "dom cfg = set (map fst DEFAULT_ADVANCED_items)"
proof (cases "file")
  case (Parsed data)
  with assms have "merge_keys data (map fst DEFAULT_ADVANCED_items) DEFAULT_ADVANCED = Inr cfg"
    by (simp add: load_config_def)
  then have "dom cfg = dom DEFAULT_ADVANCED"
    by (rule merge_keys_dom_sub) (simp add: dom_DEFAULT_ADVANCED)
  then show ?thesis by (simp add: dom_DEFAULT_ADVANCED)
qed (use assms in \<open>auto simp: load_config_def dom_DEFAULT_ADVANCED\<close>)

text \<open>So no \<open>cfg[key]\<close> of the \<open>perform_dfu\<close> call raises \<open>KeyError\<close>.\<close>

lemma perform_args_of_total:
  assumes "load_config file = Inr cfg"
  shows "\<exists>pa. perform_args_of a cfg = Inr pa"
proof -
  have "dom cfg = set (map fst DEFAULT_ADVANCED_items)"
    using assms by (rule load_config_dom)
  then have "''app_id'' \<in> dom cfg" "''start_address'' \<in> dom cfg" "''block_size'' \<in> dom cfg"
    "''ring_type'' \<in> dom cfg" "''force_flags'' \<in> dom cfg" "''reboot_wait'' \<in> dom cfg"
    by (simp_all add: DEFAULT_ADVANCED_items_def)
  then show ?thesis
    by (auto simp: perform_args_of_def cfg_get_def)
qed

subsection \<open>The steps of the job\<close>

lemma run_try_perform:
  assumes "perform_call pc file a = Some pa"
  shows "run_try pc file a =
           (steps_before_perform a @ [Perform pa]
              @ map progress_callback (fst (pc_perform_dfu pc pa))
              @ terminal_step (snd (pc_perform_dfu pc pa)),
            snd (pc_perform_dfu pc pa))"
  using assms
  by (auto simp: perform_call_def run_try_def steps_before_perform_def terminal_step_def Let_def
      split: if_splits sum.splits option.splits)

lemma run_try_no_perform:
  assumes "perform_call pc file a = None"
  shows "prefix (fst (run_try pc file a)) (steps_before_perform a) \<and> isl (snd (run_try pc file a))"
  using assms
  by (auto simp: perform_call_def run_try_def steps_before_perform_def Let_def
      split: if_splits sum.splits option.splits)

subsection \<open>The outcome of an admitted call\<close>

lemma example_perform_call:
  "perform_call example_controller Absent example_args = Some example_perform_args"
  by (simp add: perform_call_def example_controller_def example_args_def example_perform_args_def
      load_config_def perform_args_of_def cfg_get_def DEFAULT_ADVANCED_def DEFAULT_ADVANCED_items_def)


lemma start_dfu_admitted:
  "\<not> running s \<Longrightarrow>
   start_dfu (Some pc) file a s =
     (after_join (run_and_capture (snd (run pc file a))),
      fold apply_event (fst (run pc file a)) (s\<lparr>running := True, progress := starting\<rparr>))"
  by (simp add: start_dfu_def start_dfu_admit_def)

lemma start_dfu_rejected:
  "running s \<Longrightarrow> start_dfu (Some pc) file a s = (Inl already_running, s)"
  by (simp add: start_dfu_def start_dfu_admit_def)

text \<open>
  Claim C7. An admitted call whose job reaches \<open>perform_dfu\<close>, and in which
  \<open>perform_dfu\<close> returns without raising: if it returns true, the call returns true and
  leaves the snapshot 100 of 100, "DFU completed successfully.", 100.0; if it returns
  false, the call returns false, without raising, and leaves the snapshot 0 of 0,
  "DFU failed.", 0.0. In both cases the running flag is cleared.
\<close>

theorem start_dfu_outcome:
  assumes "\<not> running s"
    and "perform_call pc file a = Some pa"
    and "snd (pc_perform_dfu pc pa) = Inr success"
  shows "start_dfu (Some pc) file a s =
           (Inr success,
            \<lparr>progress =
               (if success
                then \<lparr>current = 100, total = 100,
                      message = ''DFU completed successfully.'', percentage = 100\<rparr>
                else \<lparr>current = 0, total = 0, message = ''DFU failed.'', percentage = 0\<rparr>),
             running = False\<rparr>)"
proof -
  let ?cbs = "map progress_callback (fst (pc_perform_dfu pc pa))"
  let ?t = "if success
            then SetProgress 100 100 ''DFU completed successfully.'' (Some 100)
            else SetProgress 0 0 ''DFU failed.'' (Some 0)"
  have rt: "run_try pc file a = (steps_before_perform a @ [Perform pa] @ ?cbs @ [?t], Inr success)"
    using run_try_perform[OF assms(2)] assms(3) by (simp add: terminal_step_def)
  have r: "run pc file a = ((steps_before_perform a @ [Perform pa] @ ?cbs) @ [?t, Release], Inr success)"
    by (simp add: run_def rt)
  let ?s1 = "s\<lparr>running := True, progress := starting\<rparr>"
  let ?pre = "steps_before_perform a @ [Perform pa] @ ?cbs"
  have out: "fst (start_dfu (Some pc) file a s) = Inr success"
    using assms(1) by (simp add: start_dfu_admitted r run_and_capture_def after_join_def)
  have st: "snd (start_dfu (Some pc) file a s) = fold apply_event (?pre @ [?t, Release]) ?s1"
    using assms(1) by (simp add: start_dfu_admitted r)
  show ?thesis
  proof (cases success)
    case True
    then have "fold apply_event (?pre @ [?t, Release]) ?s1 =
        fold apply_event
          (?pre @ [SetProgress 100 100 ''DFU completed successfully.'' (Some 100), Release]) ?s1"
      by simp
    also have "\<dots> = \<lparr>progress = \<lparr>current = 100, total = 100,
        message = ''DFU completed successfully.'', percentage = py_round1 100\<rparr>, running = False\<rparr>"
      by (rule fold_terminal)
    finally show ?thesis
      using out st True by (simp add: prod_eq_iff py_round1_100)
  next
    case False
    then have "fold apply_event (?pre @ [?t, Release]) ?s1 =
        fold apply_event (?pre @ [SetProgress 0 0 ''DFU failed.'' (Some 0), Release]) ?s1"
      by simp
    also have "\<dots> = \<lparr>progress = \<lparr>current = 0, total = 0,
        message = ''DFU failed.'', percentage = py_round1 0\<rparr>, running = False\<rparr>"
      by (rule fold_terminal)
    finally show ?thesis
      using out st False by (simp add: prod_eq_iff py_round1_0)
  qed
qed

theorem start_dfu_outcome_witness:
  "\<not> running init_api \<and>
   perform_call example_controller Absent example_args = Some example_perform_args \<and>
   snd (pc_perform_dfu example_controller example_perform_args) = Inr True \<and>
   start_dfu (Some example_controller) Absent example_args init_api =
     (Inr True,
      \<lparr>progress = \<lparr>current = 100, total = 100,
                    message = ''DFU completed successfully.'', percentage = 100\<rparr>,
       running = False\<rparr>)"
proof -
  have h1: "\<not> running init_api" by (simp add: init_api_def)
  have h3: "snd (pc_perform_dfu example_controller example_perform_args) = Inr True"
    by (simp add: example_controller_def)
  show ?thesis
    using h1 example_perform_call h3 start_dfu_outcome[OF h1 example_perform_call h3]
    by simp
qed





text \<open>
  Claim C9. An admitted call whose job returns, or raises an \<open>Exception\<close>: the
  result holder is not empty after the join, and the call returns what the job returned
  or raises what the job raised, so the final "DFU thread did not return." is not reached.
\<close>

theorem start_dfu_result_holder:
  assumes "\<not> running s"
    and "case snd (run pc file a) of Inl e \<Rightarrow> is_Exception e | Inr success \<Rightarrow> True"
  shows "run_and_capture (snd (run pc file a)) \<noteq> []
         \<and> fst (start_dfu (Some pc) file a s) = snd (run pc file a)"
  using assms
  by (auto simp: start_dfu_admitted run_and_capture_def after_join_def split: sum.splits)

lemma example_run_result: "snd (run example_controller Absent example_args) = Inr True"
  using run_try_perform[OF example_perform_call]
  by (simp add: run_def Let_def example_controller_def)

theorem start_dfu_result_holder_witness:
  "\<not> running init_api \<and>
   (case snd (run example_controller Absent example_args) of
      Inl e \<Rightarrow> is_Exception e | Inr success \<Rightarrow> True) \<and>
   run_and_capture (snd (run example_controller Absent example_args)) \<noteq> [] \<and>
   fst (start_dfu (Some example_controller) Absent example_args init_api) = Inr True"
proof -
  have h1: "\<not> running init_api" by (simp add: init_api_def)
  have h2: "case snd (run example_controller Absent example_args) of
      Inl e \<Rightarrow> is_Exception e | Inr success \<Rightarrow> True"
    by (simp add: example_run_result)
  show ?thesis
    using h1 h2 start_dfu_result_holder[OF h1 h2] by (simp add: example_run_result)
qed

text \<open>
  The hypothesis on the job is needed: an exception outside \<open>Exception\<close> leaves the
  holder empty.
\<close>

lemma not_Exception_did_not_return:
  assumes "\<not> running s" and "snd (run pc file a) = Inl e" and "\<not> is_Exception e"
  shows "fst (start_dfu (Some pc) file a s) = Inl did_not_return"
  using assms by (simp add: start_dfu_admitted run_and_capture_def after_join_def)

subsection \<open>The controller is not installed\<close>

text \<open>
  Claim C4. When \<open>PlatformController\<close> is \<open>None\<close>, \<open>start_dfu\<close> raises the
  "not installed" \<open>RuntimeError\<close> and leaves the state as it was: neither the running
  flag nor the snapshot is written.
\<close>

theorem start_dfu_unavailable:
  "start_dfu None file a s = (Inl not_installed, s)"
  by (simp add: start_dfu_def)


theorem start_dfu_unavailable_witness:
  "start_dfu None Absent example_args init_api = (Inl not_installed, init_api)"
  using start_dfu_unavailable[of Absent example_args init_api] by simp

subsection \<open>Admission\<close>

text \<open>
  Claim C1. With the controller installed: the lock-held block of \<open>start_dfu\<close> raises
  exactly when the running flag is set at the check, and then it raises "DFU is already
  running."; the rejected call leaves the state, the running flag and the snapshot, as it
  was; an admitted call has set the running flag in the state from which the job runs;
  the check and the set are one atomic step of a caller.
\<close>

theorem start_dfu_admission:
  "(isl (start_dfu_admit s) \<longleftrightarrow> running s)
   \<and> (if running s
      then start_dfu_admit s = Inl already_running
         \<and> start_dfu (Some pc) file a s = (Inl already_running, s)
         \<and> caller_step s (caller_of pc file a) = (s, Done (Inl already_running))
      else (\<exists>s1. start_dfu_admit s = Inr s1 \<and> running s1
             \<and> start_dfu (Some pc) file a s =
                 (after_join (run_and_capture (snd (run pc file a))),
                  fold apply_event (fst (run pc file a)) s1)
             \<and> caller_step s (caller_of pc file a) =
                 (s1, InJob (fst (run pc file a)) (snd (run pc file a)))))"
  by (simp add: start_dfu_admit_def start_dfu_def caller_of_def)

theorem start_dfu_admission_witness:
  "start_dfu (Some example_controller) Absent example_args (init_api\<lparr>running := True\<rparr>) =
     (Inl already_running, init_api\<lparr>running := True\<rparr>)
   \<and> isl (start_dfu_admit (init_api\<lparr>running := True\<rparr>))
   \<and> \<not> isl (start_dfu_admit init_api)"
  using start_dfu_admission[of "init_api\<lparr>running := True\<rparr>" example_controller Absent example_args]
    start_dfu_admission[of init_api example_controller Absent example_args]
  by (simp add: init_api_def)

lemma admitted_state:
  "s\<lparr>running := True, progress := starting\<rparr> = \<lparr>progress = starting, running = True\<rparr>"
  by (cases s) simp

text \<open>
  Claim C10. An admitted call stores the snapshot 0 of 0, "Starting" with the ellipsis,
  0.0 in the same atomic step that sets the running flag, and the job runs from that
  state; a rejected call and a call without the controller leave the state they found.
\<close>

theorem start_dfu_starting_snapshot:
  "(if running s
    then snd (start_dfu (Some pc) file a s) = s
       \<and> caller_step s (caller_of pc file a) = (s, Done (Inl already_running))
    else start_dfu_admit s = Inr \<lparr>progress = starting, running = True\<rparr>
       \<and> snd (start_dfu (Some pc) file a s) =
           fold apply_event (fst (run pc file a)) \<lparr>progress = starting, running = True\<rparr>
       \<and> caller_step s (caller_of pc file a) =
           (\<lparr>progress = starting, running = True\<rparr>,
            InJob (fst (run pc file a)) (snd (run pc file a))))
   \<and> snd (start_dfu None file a s) = s"
  by (simp add: start_dfu_admit_def start_dfu_def caller_of_def admitted_state)

theorem start_dfu_starting_snapshot_witness:
  "start_dfu_admit init_api =
     Inr \<lparr>progress = \<lparr>current = 0, total = 0, message = ''Starting'' @ ellipsis,
                        percentage = 0\<rparr>,
          running = True\<rparr>
   \<and> snd (start_dfu (Some example_controller) Absent example_args (init_api\<lparr>running := True\<rparr>))
       = init_api\<lparr>running := True\<rparr>"
  using start_dfu_starting_snapshot[of init_api example_controller Absent example_args]
    start_dfu_starting_snapshot[of "init_api\<lparr>running := True\<rparr>" example_controller Absent example_args]
  by (simp add: init_api_def starting_def)

subsection \<open>The stored percentage\<close>





subsection \<open>What \<open>load_config\<close> returns\<close>

lemma merge_keys_object:
  "merge_keys (JObj d) keys merged =
     Inr (\<lambda>k. if k \<in> set keys
              then (case map_of d k of Some v \<Rightarrow> Some v | None \<Rightarrow> merged k)
              else merged k)"
proof (induction keys arbitrary: merged)
  case Nil
  show ?case by simp
next
  case (Cons key keys)
  show ?case
  proof (cases "map_of d key")
    case None
    then show ?thesis by (auto simp: Cons.IH fun_eq_iff)
  next
    case (Some v)
    then show ?thesis by (auto simp: Cons.IH fun_eq_iff split: option.splits)
  qed
qed

lemma load_config_object:
  "load_config (Parsed (JObj d)) =
     Inr (\<lambda>k. if k \<in> set (map fst DEFAULT_ADVANCED_items)
              then (case map_of d k of Some v \<Rightarrow> Some v | None \<Rightarrow> DEFAULT_ADVANCED k)
              else None)"
proof -
  have "k \<notin> set (map fst DEFAULT_ADVANCED_items) \<Longrightarrow> DEFAULT_ADVANCED k = None" for k
    using dom_DEFAULT_ADVANCED by blast
  then show ?thesis
    by (auto simp: load_config_def merge_keys_object fun_eq_iff)
qed

lemma load_config_fallback:
  "load_config Absent = Inr DEFAULT_ADVANCED"
  "load_config OSErrorFile = Inr DEFAULT_ADVANCED"
  "load_config JSONDecodeErrorFile = Inr DEFAULT_ADVANCED"
  by (simp_all add: load_config_def)

text \<open>
  Claim C5 fails on the code for a document that parses but is not an object: for
  \<open>null\<close> the test \<open>key in data\<close> raises \<open>TypeError\<close>, which the \<open>except\<close>
  clause does not name, so \<open>load_config\<close> raises instead of returning a mapping.
\<close>

theorem load_config_not_object:
  "load_config (Parsed JNull) = Inl (not_iterable ''NoneType'')"
  by (simp add: load_config_def DEFAULT_ADVANCED_items_def)

lemma load_config_not_utf8: "isl (load_config NotUtf8)"
  by (simp add: load_config_def)

subsection \<open>The order of the steps of the job\<close>




subsection \<open>Concurrent callers: at most one job at a time\<close>

lemma progress_callback_not_Release: "progress_callback cb \<noteq> Release"
  by (cases cb) simp

lemma run_try_no_Release: "Release \<notin> set (fst (run_try pc file a))"
proof (cases "perform_call pc file a")
  case None
  then have "prefix (fst (run_try pc file a)) (steps_before_perform a)"
    using run_try_no_perform by blast
  then have "set (fst (run_try pc file a)) \<subseteq> set (steps_before_perform a)"
    by (rule set_mono_prefix)
  then show ?thesis by (auto simp: steps_before_perform_def)
next
  case (Some pa)
  show ?thesis
    by (auto simp: run_try_perform[OF Some] steps_before_perform_def terminal_step_def
        progress_callback_not_Release split: sum.splits)
qed

lemma run_releases_last: "releases_last (fst (run pc file a))"
proof -
  define h where "h = (case snd (run_try pc file a) of
                       Inl e \<Rightarrow> if is_Exception e
                                then [SetProgress 0 0 (''Error: '' @ exc_text e) (Some 0)]
                                else []
                     | Inr success \<Rightarrow> [])"
  define evs where "evs = fst (run_try pc file a) @ h"
  have "Release \<notin> set h"
    by (auto simp: h_def split: sum.splits)
  with run_try_no_Release[of pc "file" a] have no: "Release \<notin> set evs"
    by (simp add: evs_def)
  have "fst (run pc file a) = evs @ [Release]"
    by (simp add: run_def Let_def h_def evs_def)
  with no show ?thesis
    by (simp add: releases_last_def)
qed

lemma releases_last_Cons:
  "releases_last (e # evs) \<Longrightarrow>
     (evs = [] \<and> e = Release) \<or> (evs \<noteq> [] \<and> e \<noteq> Release \<and> releases_last evs)"
  by (cases evs) (auto simp: releases_last_def)

lemma releases_last_mem: "releases_last evs \<Longrightarrow> Release \<in> set evs"
  by (metis last_in_set releases_last_def)

lemma caller_step_effect:
  assumes "caller_ok c"
  shows "caller_ok (snd (caller_step s c)) \<and>
         ((job_running (snd (caller_step s c)) = job_running c
             \<and> running (fst (caller_step s c)) = running s)
          \<or> (\<not> job_running c \<and> job_running (snd (caller_step s c))
             \<and> \<not> running s \<and> running (fst (caller_step s c)))
          \<or> (job_running c \<and> \<not> job_running (snd (caller_step s c))
             \<and> \<not> running (fst (caller_step s c))))"
proof (cases c)
  case (Calling evs r)
  with assms show ?thesis
    by (auto simp: start_dfu_admit_def dest: releases_last_mem)
next
  case (InJob evs r)
  show ?thesis
  proof (cases evs)
    case Nil
    with InJob show ?thesis by simp
  next
    case (Cons e es)
    with InJob assms have "releases_last (e # es)" by simp
    then consider "es = []" "e = Release" | "es \<noteq> []" "e \<noteq> Release" "releases_last es"
      using releases_last_Cons by blast
    then show ?thesis
    proof cases
      case 1
      with InJob Cons show ?thesis by simp
    next
      case 2
      with InJob Cons show ?thesis
        by (auto simp: running_apply_event dest: releases_last_mem)
    qed
  qed
next
  case (Done r)
  then show ?thesis by simp
qed

lemma single_flight_step:
  assumes "single_flight st"
  shows "single_flight (sys_step st i)"
proof (cases st)
  case (Pair s cs)
  show ?thesis
  proof (cases "i < length cs")
    case False
    with Pair assms show ?thesis by simp
  next
    case True
    let ?c = "cs ! i"
    let ?s' = "fst (caller_step s ?c)"
    let ?c' = "snd (caller_step s ?c)"
    have step: "sys_step st i = (?s', cs[i := ?c'])"
      using Pair True by simp
    have ok: "\<forall>c \<in> set cs. caller_ok c"
      and run: "running s \<longleftrightarrow> (\<exists>j < length cs. job_running (cs ! j))"
      and uniq: "\<forall>j < length cs. \<forall>k < length cs.
                   job_running (cs ! j) \<and> job_running (cs ! k) \<longrightarrow> j = k"
      using assms Pair by (simp_all add: single_flight_def)
    from ok True have "caller_ok ?c" by simp
    from caller_step_effect[OF this, of s]
    have ok': "caller_ok ?c'"
      and eff: "(job_running ?c' = job_running ?c \<and> running ?s' = running s)
          \<or> (\<not> job_running ?c \<and> job_running ?c' \<and> \<not> running s \<and> running ?s')
          \<or> (job_running ?c \<and> \<not> job_running ?c' \<and> \<not> running ?s')"
      by simp_all
    have jr: "job_running (cs[i := ?c'] ! j) = (if j = i then job_running ?c' else job_running (cs ! j))"
      if "j < length cs" for j
      using that by (simp add: nth_list_update)
    have g1: "\<forall>c \<in> set (cs[i := ?c']). caller_ok c"
      using ok ok' by (auto dest!: set_update_subset_insert[THEN subsetD])
    let ?G = "(running ?s' \<longleftrightarrow> (\<exists>j < length cs. job_running (cs[i := ?c'] ! j)))
              \<and> (\<forall>j < length cs. \<forall>k < length cs.
                 job_running (cs[i := ?c'] ! j) \<and> job_running (cs[i := ?c'] ! k) \<longrightarrow> j = k)"
    from eff have g23: ?G
    proof (elim disjE conjE)
      assume a: "job_running ?c' = job_running ?c" "running ?s' = running s"
      then have same: "job_running (cs[i := ?c'] ! j) = job_running (cs ! j)" if "j < length cs" for j
        using that by (simp add: jr)
      show ?G
        using a(2) run uniq same by auto
    next
      assume b: "\<not> job_running ?c" "job_running ?c'" "\<not> running s" "running ?s'"
      from b(3) run have none: "\<not> job_running (cs ! j)" if "j < length cs" for j
        using that by blast
      then have only: "job_running (cs[i := ?c'] ! j) \<longleftrightarrow> j = i" if "j < length cs" for j
        using that b(2) by (simp add: jr)
      show ?G
        using b(4) only True by auto
    next
      assume c: "job_running ?c" "\<not> job_running ?c'" "\<not> running ?s'"
      from c(1) uniq True have "\<not> job_running (cs ! j)" if "j < length cs" "j \<noteq> i" for j
        using that by blast
      then have none: "\<not> job_running (cs[i := ?c'] ! j)" if "j < length cs" for j
        using that c(2) by (simp add: jr)
      show ?G
        using c(3) none by auto
    qed
    from g1 g23 show ?thesis
      by (simp add: step single_flight_def)
  qed
qed

lemma single_flight_exec:
  "single_flight st \<Longrightarrow> single_flight (exec st sched)"
  by (induction sched arbitrary: st) (simp_all add: single_flight_step)

lemma length_sys_step: "length (snd (sys_step st i)) = length (snd st)"
  by (cases st) simp

lemma length_exec: "length (snd (exec st sched)) = length (snd st)"
  by (induction sched arbitrary: st) (simp_all add: length_sys_step)

lemma single_flight_init:
  assumes "\<not> running s" and "\<forall>c \<in> set cs. \<exists>evs r. c = Calling evs r \<and> releases_last evs"
  shows "single_flight (s, cs)"
proof -
  have "\<not> job_running (cs ! i)" if "i < length cs" for i
    using assms(2) that by (metis job_running.simps(2) nth_mem)
  with assms show ?thesis
    by (auto simp: single_flight_def)
qed

lemma exec_append: "exec st (xs @ ys) = exec (exec st xs) ys"
  by (induction xs arbitrary: st) simp_all

lemma exec_job_steps:
  "k \<le> length evs \<Longrightarrow>
   exec (s, [InJob evs r, c]) (replicate k 0) =
     (fold apply_event (take k evs) s, [InJob (drop k evs) r, c])"
proof (induction k arbitrary: s evs)
  case 0
  show ?case by simp
next
  case (Suc k)
  then obtain e es where evs: "evs = e # es" by (cases evs) auto
  with Suc.prems have "k \<le> length es" by simp
  from Suc.IH[OF this] evs show ?case by simp
qed

lemma example_caller:
  "caller_of example_controller Absent example_args =
     Calling [SetProgress 0 0 (''Connecting'' @ ellipsis) None,
              Construct ''BEM_04'' ''ble'',
              Configure ''oura_'' 10,
              SetCallback,
              SetProgress 0 0 (''Performing DFU'' @ ellipsis) None,
              LoadConfig,
              Perform example_perform_args,
              SetProgress 100 100 ''DFU completed successfully.'' (Some 100),
              Release]
             (Inr True)"
  using run_try_perform[OF example_perform_call]
  by (simp add: caller_of_def run_def Let_def example_controller_def terminal_step_def
      steps_before_perform_def example_args_def)

lemma example_run_steps:
  "fst (run example_controller Absent example_args) =
     [SetProgress 0 0 (''Connecting'' @ ellipsis) None,
      Construct ''BEM_04'' ''ble'',
      Configure ''oura_'' 10,
      SetCallback,
      SetProgress 0 0 (''Performing DFU'' @ ellipsis) None,
      LoadConfig,
      Perform example_perform_args,
      SetProgress 100 100 ''DFU completed successfully.'' (Some 100),
      Release]"
  using example_caller by (simp add: caller_of_def)

text \<open>
  Claim C2 as stated fails: of two concurrent calls both can be admitted. The second
  caller makes its check after the job of the first has cleared the running flag and
  before the first call has returned; both calls then return true.
\<close>

theorem two_callers_counterexample:
  "snd (exec (init_api, [caller_of example_controller Absent example_args,
                         caller_of example_controller Absent example_args])
          [0, 0, 0, 0, 0, 0, 0, 0, 0, 0, 1])
     = [InJob [] (Inr True),
        InJob (fst (run example_controller Absent example_args)) (Inr True)]
   \<and> snd (exec (init_api, [caller_of example_controller Absent example_args,
                           caller_of example_controller Absent example_args])
            [0, 0, 0, 0, 0, 0, 0, 0, 0, 0, 1, 0, 1, 1, 1, 1, 1, 1, 1, 1, 1, 1])
       = [Done (Inr True), Done (Inr True)]"
  by (simp add: example_caller example_run_steps start_dfu_admit_def init_api_def
      set_progress_def Let_def run_and_capture_def after_join_def)

lemma caller_of_ok: "\<exists>evs r. caller_of pc file a = Calling evs r \<and> releases_last evs"
  by (simp add: caller_of_def run_releases_last)

lemma two_callers_init:
  assumes "\<not> running s0"
  shows "single_flight (s0, [caller_of pc1 f1 a1, caller_of pc2 f2 a2])"
  using assms by (rule single_flight_init) (use caller_of_ok in auto)

lemma rejected_while_running:
  assumes "running s" and "i < length cs" and "cs ! i = Calling evs r"
  shows "sys_step (s, cs) i = (s, cs[i := Done (Inl already_running)])"
  using assms by (simp add: start_dfu_admit_def)

lemma second_check_during_job:
  assumes "\<not> running s0" and "k < length (fst (run pc1 f1 a1))"
  shows "snd (exec (s0, [caller_of pc1 f1 a1, caller_of pc2 f2 a2]) (0 # replicate k 0 @ [1])) ! 1
           = Done (Inl already_running)"
proof -
  let ?evs = "fst (run pc1 f1 a1)"
  let ?r = "snd (run pc1 f1 a1)"
  let ?c2 = "caller_of pc2 f2 a2"
  let ?s1 = "s0\<lparr>running := True, progress := starting\<rparr>"
  let ?s2 = "fold apply_event (take k ?evs) ?s1"
  let ?cs2 = "[InJob (drop k ?evs) ?r, ?c2]"
  have inv0: "single_flight (s0, [caller_of pc1 f1 a1, ?c2])"
    using assms(1) by (rule two_callers_init)
  have admit: "sys_step (s0, [caller_of pc1 f1 a1, ?c2]) 0 = (?s1, [InJob ?evs ?r, ?c2])"
    using assms(1) by (simp add: caller_of_def start_dfu_admit_def)
  have steps: "exec (?s1, [InJob ?evs ?r, ?c2]) (replicate k 0) = (?s2, ?cs2)"
    using assms(2) by (intro exec_job_steps) simp
  have reach: "exec (s0, [caller_of pc1 f1 a1, ?c2]) (0 # replicate k 0) = (?s2, ?cs2)"
    using admit steps by simp
  have "single_flight (?s2, ?cs2)"
    using single_flight_exec[OF inv0, of "0 # replicate k 0"] reach by simp
  moreover have "job_running (InJob (drop k ?evs) ?r)"
  proof -
    have "releases_last ?evs" by (rule run_releases_last)
    then have "last ?evs = Release" "?evs \<noteq> []" by (simp_all add: releases_last_def)
    with assms(2) have "drop k ?evs \<noteq> []" "last (drop k ?evs) = Release" by simp_all
    then have "Release \<in> set (drop k ?evs)" by (metis last_in_set)
    then show ?thesis by simp
  qed
  ultimately have run: "running ?s2"
    by (auto simp: single_flight_def)
  have "exec (s0, [caller_of pc1 f1 a1, ?c2]) (0 # replicate k 0 @ [1])
          = sys_step (?s2, ?cs2) 1"
    using reach exec_append[of "(s0, [caller_of pc1 f1 a1, ?c2])" "0 # replicate k 0" "[1]"]
    by simp
  also have "\<dots> = (?s2, ?cs2[1 := Done (Inl already_running)])"
    using run by (intro rejected_while_running) (simp_all add: caller_of_def)
  finally show ?thesis by simp
qed

text \<open>
  Claim C2, amended. Two concurrent calls of \<open>start_dfu\<close>, made while no job is
  running, under every schedule: at no instant are both jobs running, and the running
  flag is set exactly while one of them is; a caller that makes its check while the
  job of the other is running is rejected with "DFU is already running." and changes
  nothing; in particular, when the first caller has been admitted and the second makes
  its check before the first job has cleared the flag, the second is rejected; and
  each job clears the flag once, with its last step.
\<close>

theorem two_callers_single_flight:
  assumes "\<not> running s0"
    and "exec (s0, [caller_of pc1 f1 a1, caller_of pc2 f2 a2]) sched = (s, cs)"
  shows "\<not> (job_running (cs ! 0) \<and> job_running (cs ! 1))
       \<and> (running s \<longleftrightarrow> job_running (cs ! 0) \<or> job_running (cs ! 1))
       \<and> (\<forall>i < 2. \<forall>evs r. cs ! i = Calling evs r \<and> job_running (cs ! (1 - i))
             \<longrightarrow> sys_step (s, cs) i = (s, cs[i := Done (Inl already_running)]))
       \<and> (\<forall>k < length (fst (run pc1 f1 a1)).
             snd (exec (s0, [caller_of pc1 f1 a1, caller_of pc2 f2 a2])
                    (0 # replicate k 0 @ [1])) ! 1
               = Done (Inl already_running))
       \<and> releases_last (fst (run pc1 f1 a1))
       \<and> releases_last (fst (run pc2 f2 a2))"
proof -
  have inv: "single_flight (s, cs)"
    using single_flight_exec[OF two_callers_init[OF assms(1)], of pc1 f1 a1 pc2 f2 a2 sched]
      assms(2) by simp
  have len: "length cs = 2"
    using length_exec[of "(s0, [caller_of pc1 f1 a1, caller_of pc2 f2 a2])" sched] assms(2)
    by simp
  from inv len have "\<forall>i < 2. \<forall>j < 2. job_running (cs ! i) \<and> job_running (cs ! j) \<longrightarrow> i = j"
    by (simp add: single_flight_def)
  then have "job_running (cs ! 0) \<and> job_running (cs ! 1) \<longrightarrow> (0::nat) = 1"
    by (metis One_nat_def lessI less_2_cases_iff)
  then have excl: "\<not> (job_running (cs ! 0) \<and> job_running (cs ! 1))"
    by simp
  from inv len have flag: "running s \<longleftrightarrow> job_running (cs ! 0) \<or> job_running (cs ! 1)"
    by (auto simp: single_flight_def less_2_cases_iff)
  have rej: "sys_step (s, cs) i = (s, cs[i := Done (Inl already_running)])"
    if "i < 2" "cs ! i = Calling evs r" "job_running (cs ! (1 - i))" for i evs r
  proof -
    from that(1) have "i = 0 \<or> i = 1" by auto
    with that(3) flag have "running s" by auto
    with that(1,2) len show ?thesis
      by (intro rejected_while_running) simp_all
  qed
  show ?thesis
    using excl flag rej second_check_during_job[OF assms(1)] run_releases_last
    by blast
qed

theorem two_callers_single_flight_witness:
  "\<not> running init_api
   \<and> exec (init_api, [caller_of example_controller Absent example_args,
                      caller_of example_controller Absent example_args]) [0, 1]
       = (\<lparr>progress = starting, running = True\<rparr>,
          [InJob (fst (run example_controller Absent example_args)) (Inr True),
           Done (Inl already_running)])
   \<and> snd (exec (init_api, [caller_of example_controller Absent example_args,
                           caller_of example_controller Absent example_args]) [0, 0, 1]) ! 1
       = Done (Inl already_running)
   \<and> releases_last (fst (run example_controller Absent example_args))"
proof -
  have h1: "\<not> running init_api" by (simp add: init_api_def)
  have h2: "exec (init_api, [caller_of example_controller Absent example_args,
                      caller_of example_controller Absent example_args]) [0, 1]
       = (\<lparr>progress = starting, running = True\<rparr>,
          [InJob (fst (run example_controller Absent example_args)) (Inr True),
           Done (Inl already_running)])"
    by (simp add: example_caller example_run_steps start_dfu_admit_def init_api_def)
  have k: "1 < length (fst (run example_controller Absent example_args))"
    by (simp add: example_run_steps)
  from two_callers_single_flight[OF h1 h2] k
  have "snd (exec (init_api, [caller_of example_controller Absent example_args,
                           caller_of example_controller Absent example_args])
               (0 # replicate 1 0 @ [1])) ! 1 = Done (Inl already_running)"
    and "releases_last (fst (run example_controller Absent example_args))"
    by blast+
  with h1 h2 show ?thesis by simp
qed

end
